theory Spec2Isabelle
  imports Complex_Main "HOL-Library.Word" "HOL-Library.AList"
begin

section \<open>Token log-probabilities of a chat completion\<close>

text \<open>
  The notebook \<^verbatim>\<open>examples/Using_logprobs.ipynb\<close> reads the per-token log-probabilities of
  a chat completion and post-processes them in a few code cells.  Each cell is embedded
  here as a function of the response it reads.

  Python's \<^verbatim>\<open>str\<close> is a sequence of Unicode code points, so a text is a list of
  code points; a byte is an 8-bit word.  Python's \<^verbatim>\<open>float\<close> is idealised as
  \<^typ>\<open>real\<close>: rounding, overflow and underflow of IEEE doubles are not part of the model.
\<close>

type_synonym py_str = "nat list"
type_synonym byte = "8 word"

text \<open>An ASCII literal of the source as a text.\<close>

definition str :: "string \<Rightarrow> py_str" where
  "str s = map of_char s"

text \<open>
  \<^verbatim>\<open>TopLogprob(token, bytes, logprob)\<close> and
  \<^verbatim>\<open>ChatCompletionTokenLogprob(token, bytes, logprob, top_logprobs)\<close>, as the responses
  printed in the notebook show them.
\<close>

record TopLogprob =
  token :: py_str
  bytes :: "byte list"
  logprob :: real

record ChatCompletionTokenLogprob = TopLogprob +
  top_logprobs :: "TopLogprob list"

text \<open>
  Of a response the cells read \<^verbatim>\<open>choices[0].logprobs.content\<close> and
  \<^verbatim>\<open>choices[0].message.content\<close>.
\<close>

record ChatCompletion =
  logprobs_content :: "ChatCompletionTokenLogprob list"
  message :: py_str

datatype py_error = UnicodeDecodeError | AssertionError | NameError | IndexError

subsection \<open>Linear probability\<close>

text \<open>\<^verbatim>\<open>np.exp(logprob.logprob)\<close>\<close>

definition linearProbability :: "real \<Rightarrow> real" where
  "linearProbability lp = exp lp"

subsection \<open>The aggregation loop\<close>

text \<open>
  \<^verbatim>\<open>
  aggregated_bytes = []
  joint_logprob = 0.0
  for token in API_RESPONSE.choices[0].logprobs.content:
      aggregated_bytes += token.bytes
      joint_logprob += token.logprob
  \<close>
  The loop threads the two accumulators through the tokens, in order; \<open>ab\<close> stands for
  \<^verbatim>\<open>aggregated_bytes\<close> and \<open>jl\<close> for \<^verbatim>\<open>joint_logprob\<close>.
\<close>

fun aggregate_loop ::
  "ChatCompletionTokenLogprob list \<Rightarrow> byte list \<times> real \<Rightarrow> byte list \<times> real" where
  "aggregate_loop [] acc = acc"
| "aggregate_loop (t # ts) (ab, jl) = aggregate_loop ts (ab @ bytes t, jl + logprob t)"

text \<open>\<^verbatim>\<open>exp(joint_logprob)\<close> after the loop.\<close>

definition jointProbability :: "ChatCompletionTokenLogprob list \<Rightarrow> real" where
  "jointProbability tokens = exp (snd (aggregate_loop tokens ([], 0)))"

subsection \<open>Decoding bytes as UTF-8\<close>

text \<open>
  \<^verbatim>\<open>bytes(aggregated_bytes).decode('utf-8')\<close> is Python's strict UTF-8 decoder: it
  accepts the well-formed byte sequences of the Unicode standard (no overlong forms, no
  surrogates, nothing above U+10FFFF) and raises \<^verbatim>\<open>UnicodeDecodeError\<close> on
  anything else.  The decoder reads one character at a time from the front of the buffer.
\<close>

definition is_continuation :: "nat \<Rightarrow> bool" where
  "is_continuation b = (0x80 \<le> b \<and> b \<le> 0xBF)"

definition utf8_decode_char :: "nat list \<Rightarrow> (nat \<times> nat list) option" where
  "utf8_decode_char buf =
    (case buf of
       [] \<Rightarrow> None
     | b0 # bs \<Rightarrow>
        if b0 < 0x80 then Some (b0, bs)
        else if 0xC2 \<le> b0 \<and> b0 \<le> 0xDF then
          (case bs of
             b1 # r \<Rightarrow>
               if is_continuation b1
               then Some ((b0 - 0xC0) * 0x40 + (b1 - 0x80), r)
               else None
           | _ \<Rightarrow> None)
        else if 0xE0 \<le> b0 \<and> b0 \<le> 0xEF then
          (case bs of
             b1 # b2 # r \<Rightarrow>
               if (if b0 = 0xE0 then 0xA0 else 0x80) \<le> b1
                  \<and> b1 \<le> (if b0 = 0xED then 0x9F else 0xBF)
                  \<and> is_continuation b2
               then Some ((b0 - 0xE0) * 0x1000 + (b1 - 0x80) * 0x40 + (b2 - 0x80), r)
               else None
           | _ \<Rightarrow> None)
        else if 0xF0 \<le> b0 \<and> b0 \<le> 0xF4 then
          (case bs of
             b1 # b2 # b3 # r \<Rightarrow>
               if (if b0 = 0xF0 then 0x90 else 0x80) \<le> b1
                  \<and> b1 \<le> (if b0 = 0xF4 then 0x8F else 0xBF)
                  \<and> is_continuation b2 \<and> is_continuation b3
               then Some ((b0 - 0xF0) * 0x40000 + (b1 - 0x80) * 0x1000
                          + (b2 - 0x80) * 0x40 + (b3 - 0x80), r)
               else None
           | _ \<Rightarrow> None)
        else None)"

function utf8_decode :: "nat list \<Rightarrow> py_str option" where
  "utf8_decode [] = Some []"
| "utf8_decode (b # bs) =
     (case utf8_decode_char (b # bs) of
        None \<Rightarrow> None
      | Some (c, r) \<Rightarrow> map_option ((#) c) (utf8_decode r))"
  by pat_completeness auto
termination
  by (relation "measure length")
    (auto simp: utf8_decode_char_def split: if_splits list.splits)

definition bytes_decode_utf8 :: "byte list \<Rightarrow> py_str option" where
  "bytes_decode_utf8 bs = utf8_decode (map unat bs)"

text \<open>
  The encoding form UTF-8 of the Unicode standard, which says what a well-formed byte
  sequence is: the concatenation of the encodings of Unicode scalar values.
\<close>

definition is_scalar_value :: "nat \<Rightarrow> bool" where
  "is_scalar_value c = (c < 0xD800 \<or> (0xE000 \<le> c \<and> c < 0x110000))"

definition utf8_encode_char :: "nat \<Rightarrow> nat list" where
  "utf8_encode_char c =
    (if c < 0x80 then [c]
     else if c < 0x800 then [0xC0 + c div 0x40, 0x80 + c mod 0x40]
     else if c < 0x10000 then
       [0xE0 + c div 0x1000, 0x80 + c div 0x40 mod 0x40, 0x80 + c mod 0x40]
     else [0xF0 + c div 0x40000, 0x80 + c div 0x1000 mod 0x40,
           0x80 + c div 0x40 mod 0x40, 0x80 + c mod 0x40])"

definition utf8_encode :: "py_str \<Rightarrow> nat list" where
  "utf8_encode s = concat (map utf8_encode_char s)"

definition valid_utf8 :: "byte list \<Rightarrow> bool" where
  "valid_utf8 bs = (\<exists>s. list_all is_scalar_value s \<and> utf8_encode s = map unat bs)"

subsection \<open>Decoded text and the consistency check\<close>

text \<open>\<^verbatim>\<open>aggregated_text = bytes(aggregated_bytes).decode('utf-8')\<close> after the loop.\<close>

definition decodeText :: "ChatCompletionTokenLogprob list \<Rightarrow> py_error + py_str" where
  "decodeText tokens =
     (case bytes_decode_utf8 (fst (aggregate_loop tokens ([], 0))) of
        None \<Rightarrow> Inl UnicodeDecodeError
      | Some aggregated_text \<Rightarrow> Inr aggregated_text)"

text \<open>
  The cells run at the top level of the notebook, so their variables are globals of the
  kernel and stay bound after a cell has run.  \<open>None\<close> is a name that is not bound;
  reading it raises \<^verbatim>\<open>NameError\<close>.  A dictionary is an association list in
  insertion order.
\<close>

record globals =
  aggregated_bytes :: "byte list option"
  joint_logprob :: "real option"
  message_content :: "py_str option"
  aggregated_text :: "py_str option"
  high_prob_completions :: "(py_str \<times> py_str) list option"

text \<open>A freshly started kernel: none of the names is bound.\<close>

definition fresh_kernel :: globals where
  "fresh_kernel = \<lparr>aggregated_bytes = None, joint_logprob = None, message_content = None,
     aggregated_text = None, high_prob_completions = None\<rparr>"

text \<open>
  The cell of section 2 that aggregates a response:
  \<^verbatim>\<open>
  aggregated_bytes = []
  joint_logprob = 0.0
  for token in API_RESPONSE.choices[0].logprobs.content:
      aggregated_bytes += token.bytes
      joint_logprob += token.logprob

  message_content = API_RESPONSE.choices[0].message.content
  aggregated_text = bytes(aggregated_bytes).decode('utf-8')
  print(aggregated_text)

  assert message_content == aggregated_text

  print(f"text = {aggregated_text}")
  print(f"joint probability = {exp(joint_logprob)}")
  \<close>
  When the cell completes, the model returns the text and the joint probability of its
  last two lines, and the globals it leaves behind.
\<close>

definition aggregate_cell ::
  "globals \<Rightarrow> ChatCompletion \<Rightarrow> py_error + ((py_str \<times> real) \<times> globals)" where
  "aggregate_cell g r =
    (let (ab, jl) = aggregate_loop (logprobs_content r) ([], 0);
         g1 = g\<lparr>aggregated_bytes := Some ab, joint_logprob := Some jl,
                message_content := Some (message r)\<rparr>
     in case bytes_decode_utf8 ab of
          None \<Rightarrow> Inl UnicodeDecodeError
        | Some text \<Rightarrow>
            if message r = text
            then Inr ((text, exp jl), g1\<lparr>aggregated_text := Some text\<rparr>)
            else Inl AssertionError)"

text \<open>
  The cell of section 4 repeats it with the decoding inside the loop:
  \<^verbatim>\<open>
  aggregated_bytes = []
  joint_logprob = 0.0
  for token in API_RESPONSE.choices[0].logprobs.content:
      aggregated_bytes += token.bytes
      joint_logprob += token.logprob
      message_content = API_RESPONSE.choices[0].message.content
      aggregated_text = bytes(aggregated_bytes).decode('utf-8')
      print(aggregated_text)

  assert message_content == aggregated_text

  print(f"text = {aggregated_text}")
  print(f"joint probability = {exp(joint_logprob)}")
  \<close>
  Here \<^verbatim>\<open>message_content\<close> and \<^verbatim>\<open>aggregated_text\<close> are assigned only in the
  loop body, so after a loop over no tokens the assertion reads what the kernel held
  before the cell.
\<close>

fun extensions_loop ::
  "py_str \<Rightarrow> ChatCompletionTokenLogprob list
   \<Rightarrow> byte list \<times> real \<times> py_str option \<times> py_str option
   \<Rightarrow> py_error + (byte list \<times> real \<times> py_str option \<times> py_str option)" where
  "extensions_loop msg [] st = Inr st"
| "extensions_loop msg (t # ts) (ab, jl, mc, txt) =
     (case bytes_decode_utf8 (ab @ bytes t) of
        None \<Rightarrow> Inl UnicodeDecodeError
      | Some text \<Rightarrow>
          extensions_loop msg ts (ab @ bytes t, jl + logprob t, Some msg, Some text))"

definition extensions_cell ::
  "globals \<Rightarrow> ChatCompletion \<Rightarrow> py_error + ((py_str \<times> real) \<times> globals)" where
  "extensions_cell g r =
    (case extensions_loop (message r) (logprobs_content r)
            ([], 0, message_content g, aggregated_text g) of
       Inl e \<Rightarrow> Inl e
     | Inr (ab, jl, mc, txt) \<Rightarrow>
         (case (mc, txt) of
            (Some m, Some text) \<Rightarrow>
              if m = text
              then Inr ((text, exp jl),
                     g\<lparr>aggregated_bytes := Some ab, joint_logprob := Some jl,
                       message_content := mc, aggregated_text := txt\<rparr>)
              else Inl AssertionError
          | _ \<Rightarrow> Inl NameError))"

subsection \<open>Reporting the alternatives of a position\<close>





subsection \<open>Thresholding and the autocomplete loop\<close>

text \<open>
  \<^verbatim>\<open>np.exp(alt_token.logprob)>.95\<close>, with the threshold as a parameter; the notebook
  uses \<open>0.95\<close>.
\<close>

definition meetsThreshold :: "real \<Rightarrow> real \<Rightarrow> bool" where
  "meetsThreshold lp threshold = (threshold < linearProbability lp)"



subsection \<open>Highlighting the tokens\<close>

text \<open>
  \<^verbatim>\<open>
  def highlight_text(api_response):
      colors = ['\033[95m', '\033[92m', '\033[93m', '\033[91m', '\033[94m']
      reset_color = '\033[0m'
      tokens = api_response.choices[0].logprobs.content
      color_idx = 0
      for t in tokens:
          token_str = bytes(t.bytes).decode('utf-8')
          print(f"{colors[color_idx]}{token_str}{reset_color}", end="")
          color_idx = (color_idx + 1) % len(colors)
      print()
      print(f"Total number of tokens: {len(tokens)}")
  \<close>
  The result is the list of the coloured pieces printed and the number of tokens.
\<close>

definition colors :: "py_str list" where
  "colors = [0x1B # str ''[95m'', 0x1B # str ''[92m'', 0x1B # str ''[93m'',
             0x1B # str ''[91m'', 0x1B # str ''[94m'']"

definition reset_color :: py_str where
  "reset_color = 0x1B # str ''[0m''"

fun highlight_loop ::
  "ChatCompletionTokenLogprob list \<Rightarrow> nat \<Rightarrow> py_str list \<Rightarrow> py_error + py_str list" where
  "highlight_loop [] color_idx out = Inr out"
| "highlight_loop (t # ts) color_idx out =
     (case bytes_decode_utf8 (bytes t) of
        None \<Rightarrow> Inl UnicodeDecodeError
      | Some token_str \<Rightarrow>
          highlight_loop ts ((color_idx + 1) mod length colors)
            (out @ [colors ! color_idx @ token_str @ reset_color]))"

definition highlight_text :: "ChatCompletion \<Rightarrow> py_error + (py_str list \<times> nat)" where
  "highlight_text api_response =
    (let tokens = logprobs_content api_response
     in case highlight_loop tokens 0 [] of
          Inl e \<Rightarrow> Inl e
        | Inr out \<Rightarrow> Inr (out, length tokens))"

subsection \<open>Responses recorded in the notebook\<close>

text \<open>The response to \<^verbatim>\<open>Give me three random emojis\<close>, as the notebook prints it.\<close>

definition fragment :: "string \<Rightarrow> byte list \<Rightarrow> real \<Rightarrow> ChatCompletionTokenLogprob" where
  "fragment tok bs lp = \<lparr>token = str tok, bytes = bs, logprob = lp, top_logprobs = []\<rparr>"

definition emoji_text :: py_str where
  "emoji_text = [0x1F308, 0x1F355, 0x1F680]"

definition emoji_response :: ChatCompletion where
  "emoji_response =
    \<lparr>logprobs_content =
       [fragment (CHR 0x5C # ''xf0'' @ CHR 0x5C # ''x9f'') [240, 159] (- 0.17577635),
        fragment (CHR 0x5C # ''x8c'') [140] (- 0.85772306),
        fragment (CHR 0x5C # ''x88'') [136] (- 2.3395207),
        fragment (CHR 0x5C # ''xf0'' @ CHR 0x5C # ''x9f'') [240, 159] (- 0.20028262),
        fragment (CHR 0x5C # ''x8d'') [141] (- 0.9647721),
        fragment (CHR 0x5C # ''x95'') [149] (- 0.5920826),
        fragment (CHR 0x5C # ''xf0'' @ CHR 0x5C # ''x9f'') [240, 159] (- 0.15628104),
        fragment (CHR 0x5C # ''x9a'') [154] (- 0.67634493),
        fragment (CHR 0x5C # ''x80'') [128] (- 0.0012997614)],
     message = emoji_text\<rparr>"





section \<open>Properties\<close>

subsection \<open>The UTF-8 decoder against the encoding form\<close>

lemma digits_of:
  fixes c :: nat
  obtains q d2 d1 d0 where "d0 < 64" "d1 < 64" "d2 < 64"
    "c = q * 0x40000 + d2 * 0x1000 + d1 * 0x40 + d0"
    "c mod 0x40 = d0" "c div 0x40 mod 0x40 = d1" "c div 0x1000 mod 0x40 = d2"
    "c div 0x40000 = q" "c div 0x1000 = q * 0x40 + d2" "c div 0x40 = q * 0x1000 + d2 * 0x40 + d1"
proof -
  define x1 where "x1 = c div 0x40"
  define x2 where "x2 = x1 div 0x40"
  define x3 where "x3 = x2 div 0x40"
  have c1: "c = x1 * 0x40 + c mod 0x40" by (simp add: x1_def)
  have c2: "x1 = x2 * 0x40 + x1 mod 0x40" by (simp add: x2_def)
  have c3: "x2 = x3 * 0x40 + x2 mod 0x40" by (simp add: x3_def)
  have e2: "c div 0x1000 = x2"
    using div_mult2_eq [of c "0x40" "0x40"] by (simp add: x1_def x2_def)
  have e3: "c div 0x40000 = x3"
    using div_mult2_eq [of c "0x1000" "0x40"] e2 by (simp add: x3_def)
  show thesis
  proof (rule that [of "c mod 0x40" "x1 mod 0x40" "x2 mod 0x40" x3])
    show "c = x3 * 0x40000 + x2 mod 0x40 * 0x1000 + x1 mod 0x40 * 0x40 + c mod 0x40"
      using c1 c2 c3 by linarith
    show "c div 0x1000 mod 0x40 = x2 mod 0x40" by (simp only: e2)
    show "c div 0x40 mod 0x40 = x1 mod 0x40" by (simp only: x1_def)
    show "c div 0x40000 = x3" by (rule e3)
    show "c div 0x1000 = x3 * 0x40 + x2 mod 0x40" using e2 c3 by simp
    show "c div 0x40 = x3 * 0x1000 + x2 mod 0x40 * 0x40 + x1 mod 0x40"
      using c2 c3 unfolding x1_def [symmetric] by linarith
  qed simp_all
qed


lemma dec_1: "b0 < 0x80 \<Longrightarrow> utf8_decode_char (b0 # r) = Some (b0, r)"
  by (simp add: utf8_decode_char_def)

lemma dec_2:
  "0xC2 \<le> b0 \<Longrightarrow> b0 \<le> 0xDF \<Longrightarrow> 0x80 \<le> b1 \<Longrightarrow> b1 \<le> 0xBF \<Longrightarrow>
   utf8_decode_char (b0 # b1 # r) = Some ((b0 - 0xC0) * 0x40 + (b1 - 0x80), r)"
  by (simp add: utf8_decode_char_def is_continuation_def)

lemma dec_3:
  "0xE0 \<le> b0 \<Longrightarrow> b0 \<le> 0xEF \<Longrightarrow> 0x80 \<le> b1 \<Longrightarrow> b1 \<le> 0xBF \<Longrightarrow>
   (b0 = 0xE0 \<Longrightarrow> 0xA0 \<le> b1) \<Longrightarrow> (b0 = 0xED \<Longrightarrow> b1 \<le> 0x9F) \<Longrightarrow>
   0x80 \<le> b2 \<Longrightarrow> b2 \<le> 0xBF \<Longrightarrow>
   utf8_decode_char (b0 # b1 # b2 # r) =
     Some ((b0 - 0xE0) * 0x1000 + (b1 - 0x80) * 0x40 + (b2 - 0x80), r)"
  by (simp add: utf8_decode_char_def is_continuation_def)

lemma dec_4:
  "0xF0 \<le> b0 \<Longrightarrow> b0 \<le> 0xF4 \<Longrightarrow> 0x80 \<le> b1 \<Longrightarrow> b1 \<le> 0xBF \<Longrightarrow>
   (b0 = 0xF0 \<Longrightarrow> 0x90 \<le> b1) \<Longrightarrow> (b0 = 0xF4 \<Longrightarrow> b1 \<le> 0x8F) \<Longrightarrow>
   0x80 \<le> b2 \<Longrightarrow> b2 \<le> 0xBF \<Longrightarrow> 0x80 \<le> b3 \<Longrightarrow> b3 \<le> 0xBF \<Longrightarrow>
   utf8_decode_char (b0 # b1 # b2 # b3 # r) =
     Some ((b0 - 0xF0) * 0x40000 + (b1 - 0x80) * 0x1000 + (b2 - 0x80) * 0x40 + (b3 - 0x80), r)"
  by (simp add: utf8_decode_char_def is_continuation_def)

lemma dec_enc_2:
  assumes "0x80 \<le> c" "c < 0x800"
  shows "utf8_decode_char (utf8_encode_char c @ r) = Some (c, r)"
proof -
  obtain q d2 d1 d0 where d: "d0 < 64" "d1 < 64" "d2 < 64"
    and c: "c = q * 0x40000 + d2 * 0x1000 + d1 * 0x40 + d0"
    and m: "c mod 0x40 = d0" "c div 0x40 = q * 0x1000 + d2 * 0x40 + d1"
    by (rule digits_of [of c])
  have z0: "q = 0" "d2 = 0" using assms c d by linarith+
  have z: "q = 0" "d2 = 0" "2 \<le> d1" "d1 < 32" using assms c d z0 by linarith+
  have e: "utf8_encode_char c = [0xC0 + d1, 0x80 + d0]"
    using assms m z by (simp add: utf8_encode_char_def)
  have "utf8_decode_char ((0xC0 + d1) # (0x80 + d0) # r) =
      Some ((0xC0 + d1 - 0xC0) * 0x40 + (0x80 + d0 - 0x80), r)"
    using d z by (intro dec_2) linarith+
  moreover have "(0xC0 + d1 - 0xC0) * 0x40 + (0x80 + d0 - 0x80) = c"
    using c z by simp
  ultimately show ?thesis by (simp add: e)
qed

lemma dec_enc_3:
  assumes "0x800 \<le> c" "c < 0x10000" "c < 0xD800 \<or> 0xE000 \<le> c"
  shows "utf8_decode_char (utf8_encode_char c @ r) = Some (c, r)"
proof -
  obtain q d2 d1 d0 where d: "d0 < 64" "d1 < 64" "d2 < 64"
    and c: "c = q * 0x40000 + d2 * 0x1000 + d1 * 0x40 + d0"
    and m: "c mod 0x40 = d0" "c div 0x40 mod 0x40 = d1" "c div 0x1000 = q * 0x40 + d2"
    by (rule digits_of [of c])
  have z: "q = 0" "d2 < 16" using assms c d by linarith+
  have z1: "d2 = 0 \<Longrightarrow> 32 \<le> d1" using assms c d z by linarith
  have z2: "d2 = 13 \<Longrightarrow> d1 < 32" using assms c d z by linarith
  have e: "utf8_encode_char c = [0xE0 + d2, 0x80 + d1, 0x80 + d0]"
    using assms(1,2) m z by (simp add: utf8_encode_char_def)
  have "utf8_decode_char ((0xE0 + d2) # (0x80 + d1) # (0x80 + d0) # r) =
      Some ((0xE0 + d2 - 0xE0) * 0x1000 + (0x80 + d1 - 0x80) * 0x40 + (0x80 + d0 - 0x80), r)"
    using d z z1 z2 by (intro dec_3) linarith+
  moreover have "(0xE0 + d2 - 0xE0) * 0x1000 + (0x80 + d1 - 0x80) * 0x40 + (0x80 + d0 - 0x80) = c"
    using c z by simp
  ultimately show ?thesis by (simp add: e)
qed

lemma dec_enc_4:
  assumes "0x10000 \<le> c" "c < 0x110000"
  shows "utf8_decode_char (utf8_encode_char c @ r) = Some (c, r)"
proof -
  obtain q d2 d1 d0 where d: "d0 < 64" "d1 < 64" "d2 < 64"
    and c: "c = q * 0x40000 + d2 * 0x1000 + d1 * 0x40 + d0"
    and m: "c mod 0x40 = d0" "c div 0x40 mod 0x40 = d1" "c div 0x1000 mod 0x40 = d2"
      "c div 0x40000 = q"
    by (rule digits_of [of c])
  have z: "q \<le> 4" using assms c d by linarith
  have z1: "q = 0 \<Longrightarrow> 16 \<le> d2" using assms c d by linarith
  have z2: "q = 4 \<Longrightarrow> d2 < 16" using assms c d by linarith
  have e: "utf8_encode_char c = [0xF0 + q, 0x80 + d2, 0x80 + d1, 0x80 + d0]"
    using assms m by (simp add: utf8_encode_char_def)
  have "utf8_decode_char ((0xF0 + q) # (0x80 + d2) # (0x80 + d1) # (0x80 + d0) # r) =
      Some ((0xF0 + q - 0xF0) * 0x40000 + (0x80 + d2 - 0x80) * 0x1000
            + (0x80 + d1 - 0x80) * 0x40 + (0x80 + d0 - 0x80), r)"
    using d z z1 z2 by (intro dec_4) linarith+
  moreover have "(0xF0 + q - 0xF0) * 0x40000 + (0x80 + d2 - 0x80) * 0x1000
            + (0x80 + d1 - 0x80) * 0x40 + (0x80 + d0 - 0x80) = c"
    using c by simp
  ultimately show ?thesis by (simp add: e)
qed

lemma utf8_decode_encode_char:
  assumes "is_scalar_value c"
  shows "utf8_decode_char (utf8_encode_char c @ r) = Some (c, r)"
proof -
  consider "c < 0x80" | "0x80 \<le> c" "c < 0x800" | "0x800 \<le> c" "c < 0x10000"
    | "0x10000 \<le> c" by linarith
  then show ?thesis
  proof cases
    case 1
    then show ?thesis by (simp add: utf8_encode_char_def dec_1)
  next
    case 2
    then show ?thesis by (rule dec_enc_2)
  next
    case 3
    with assms show ?thesis by (intro dec_enc_3) (auto simp: is_scalar_value_def)
  next
    case 4
    with assms show ?thesis by (intro dec_enc_4) (auto simp: is_scalar_value_def)
  qed
qed



lemma digit_div: "r < k \<Longrightarrow> (a * k + r) div k = (a::nat)"
  by simp

lemma digit_mod: "r < k \<Longrightarrow> (a * k + r) mod k = (r::nat)"
  by simp

lemma digits_eval:
  fixes c :: nat
  assumes "d0 < 64" "d1 < 64" "d2 < 64"
    and c: "c = q * 0x40000 + d2 * 0x1000 + d1 * 0x40 + d0"
  shows "c mod 0x40 = d0" "c div 0x40 mod 0x40 = d1" "c div 0x1000 mod 0x40 = d2"
    "c div 0x40000 = q" "c div 0x1000 = q * 0x40 + d2"
    "c div 0x40 = q * 0x1000 + d2 * 0x40 + d1"
proof -
  define x1 where "x1 = q * 0x1000 + d2 * 0x40 + d1"
  define x2 where "x2 = q * 0x40 + d2"
  have c1: "c = x1 * 0x40 + d0" using c by (simp add: x1_def)
  have c2: "x1 = x2 * 0x40 + d1" by (simp add: x1_def x2_def)
  have c3: "x2 = q * 0x40 + d2" by (simp add: x2_def)
  show "c mod 0x40 = d0" unfolding c1 using assms(1) by (rule digit_mod)
  have e1: "c div 0x40 = x1" unfolding c1 using assms(1) by (rule digit_div)
  then show "c div 0x40 = q * 0x1000 + d2 * 0x40 + d1" by (simp only: x1_def)
  have "x1 mod 0x40 = d1" unfolding c2 using assms(2) by (rule digit_mod)
  then show "c div 0x40 mod 0x40 = d1" by (simp only: e1)
  have "x1 div 0x40 = x2" unfolding c2 using assms(2) by (rule digit_div)
  then have e2: "c div 0x1000 = x2"
    using div_mult2_eq [of c "0x40" "0x40"] e1 by simp
  then show "c div 0x1000 = q * 0x40 + d2" by (simp only: x2_def)
  have "x2 mod 0x40 = d2" unfolding c3 using assms(3) by (rule digit_mod)
  then show "c div 0x1000 mod 0x40 = d2" by (simp only: e2)
  have "x2 div 0x40 = q" unfolding c3 using assms(3) by (rule digit_div)
  then show "c div 0x40000 = q"
    using div_mult2_eq [of c "0x1000" "0x40"] e2 by simp
qed

lemma utf8_decode_char_cases:
  assumes "utf8_decode_char bs = Some (c, r)"
  obtains (one) "bs = c # r" "c < 0x80"
  | (two) b0 b1 where "bs = b0 # b1 # r" "0xC2 \<le> b0" "b0 \<le> 0xDF" "0x80 \<le> b1" "b1 \<le> 0xBF"
      "c = (b0 - 0xC0) * 0x40 + (b1 - 0x80)"
  | (three) b0 b1 b2 where "bs = b0 # b1 # b2 # r" "0xE0 \<le> b0" "b0 \<le> 0xEF"
      "0x80 \<le> b1" "b1 \<le> 0xBF" "b0 = 0xE0 \<Longrightarrow> 0xA0 \<le> b1" "b0 = 0xED \<Longrightarrow> b1 \<le> 0x9F"
      "0x80 \<le> b2" "b2 \<le> 0xBF"
      "c = (b0 - 0xE0) * 0x1000 + (b1 - 0x80) * 0x40 + (b2 - 0x80)"
  | (four) b0 b1 b2 b3 where "bs = b0 # b1 # b2 # b3 # r" "0xF0 \<le> b0" "b0 \<le> 0xF4"
      "0x80 \<le> b1" "b1 \<le> 0xBF" "b0 = 0xF0 \<Longrightarrow> 0x90 \<le> b1" "b0 = 0xF4 \<Longrightarrow> b1 \<le> 0x8F"
      "0x80 \<le> b2" "b2 \<le> 0xBF" "0x80 \<le> b3" "b3 \<le> 0xBF"
      "c = (b0 - 0xF0) * 0x40000 + (b1 - 0x80) * 0x1000 + (b2 - 0x80) * 0x40 + (b3 - 0x80)"
proof (cases bs)
  case Nil
  with assms show ?thesis by (simp add: utf8_decode_char_def)
next
  case (Cons b0 bs')
  consider "b0 < 0x80" | "0xC2 \<le> b0" "b0 \<le> 0xDF" | "0xE0 \<le> b0" "b0 \<le> 0xEF"
    | "0xF0 \<le> b0" "b0 \<le> 0xF4" | "0x80 \<le> b0" "b0 < 0xC2" | "0xF4 < b0"
    by linarith
  then show ?thesis
  proof cases
    case 1
    with assms Cons show ?thesis by (intro one) (simp_all add: utf8_decode_char_def)
  next
    case 2
    with assms Cons show ?thesis
      by (intro two [of b0 "hd bs'"])
        (auto simp: utf8_decode_char_def is_continuation_def split: list.splits if_splits)
  next
    case 3
    with assms Cons show ?thesis
      by (intro three [of b0 "hd bs'" "hd (tl bs')"])
        (auto simp: utf8_decode_char_def is_continuation_def split: list.splits if_splits)
  next
    case 4
    with assms Cons show ?thesis
      by (intro four [of b0 "hd bs'" "hd (tl bs')" "hd (tl (tl bs'))"])
        (auto simp: utf8_decode_char_def is_continuation_def split: list.splits if_splits)
  next
    case 5
    with assms Cons show ?thesis by (simp add: utf8_decode_char_def)
  next
    case 6
    with assms Cons show ?thesis by (simp add: utf8_decode_char_def)
  qed
qed


lemma utf8_encode_decode_char:
  assumes "utf8_decode_char bs = Some (c, r)"
  shows "is_scalar_value c \<and> bs = utf8_encode_char c @ r"
  using assms
proof (cases rule: utf8_decode_char_cases)
  case one
  then show ?thesis by (simp add: is_scalar_value_def utf8_encode_char_def)
next
  case (two b0 b1)
  define d1 where "d1 = b0 - 0xC0"
  define d0 where "d0 = b1 - 0x80"
  have b: "b0 = 0xC0 + d1" "b1 = 0x80 + d0" "2 \<le> d1" "d1 < 32" "d0 < 64"
    using two by (simp_all add: d1_def d0_def)
  have c: "c = 0 * 0x40000 + 0 * 0x1000 + d1 * 0x40 + d0"
    using two by (simp add: d1_def d0_def)
  have r: "0x80 \<le> c" "c < 0x800" using c b by linarith+
  have "c mod 0x40 = d0" "c div 0x40 = 0 * 0x1000 + 0 * 0x40 + d1"
    using digits_eval [OF _ _ _ c] b by simp_all
  then have "utf8_encode_char c = [b0, b1]"
    using r b by (simp add: utf8_encode_char_def)
  then show ?thesis using two r by (simp add: is_scalar_value_def)
next
  case (three b0 b1 b2)
  define d2 where "d2 = b0 - 0xE0"
  define d1 where "d1 = b1 - 0x80"
  define d0 where "d0 = b2 - 0x80"
  have b: "b0 = 0xE0 + d2" "b1 = 0x80 + d1" "b2 = 0x80 + d0" "d2 < 16" "d1 < 64" "d0 < 64"
    using three by (simp_all add: d2_def d1_def d0_def)
  have b1: "d2 = 0 \<Longrightarrow> 32 \<le> d1" using three(6) b by simp
  have b2: "d2 = 13 \<Longrightarrow> d1 < 32" using three(7) b by simp
  have c: "c = 0 * 0x40000 + d2 * 0x1000 + d1 * 0x40 + d0"
    using three by (simp add: d2_def d1_def d0_def)
  have r12: "0x800 \<le> c" "c < 0x10000"
    using c b b1 by linarith+
  consider "d2 < 13" | "d2 = 13" | "14 \<le> d2" by linarith
  then have r3: "c < 0xD800 \<or> 0xE000 \<le> c"
  proof cases
    case 1
    then show ?thesis using c b by linarith
  next
    case 2
    then show ?thesis using c b b2 by linarith
  next
    case 3
    then show ?thesis using c b by linarith
  qed
  note r = r12 r3
  have "d2 < 64" using b by simp
  then have "c mod 0x40 = d0" "c div 0x40 mod 0x40 = d1" "c div 0x1000 = 0 * 0x40 + d2"
    using digits_eval [OF _ _ _ c] b by simp_all
  then have "utf8_encode_char c = [b0, b1, b2]"
    using r b by (simp add: utf8_encode_char_def)
  then show ?thesis using three r by (auto simp add: is_scalar_value_def)
next
  case (four b0 b1 b2 b3)
  define q where "q = b0 - 0xF0"
  define d2 where "d2 = b1 - 0x80"
  define d1 where "d1 = b2 - 0x80"
  define d0 where "d0 = b3 - 0x80"
  have b: "b0 = 0xF0 + q" "b1 = 0x80 + d2" "b2 = 0x80 + d1" "b3 = 0x80 + d0"
    "q \<le> 4" "d2 < 64" "d1 < 64" "d0 < 64"
    using four by (simp_all add: q_def d2_def d1_def d0_def)
  have b1: "q = 0 \<Longrightarrow> 16 \<le> d2" using four(6) b by simp
  have b2: "q = 4 \<Longrightarrow> d2 < 16" using four(7) b by simp
  have c: "c = q * 0x40000 + d2 * 0x1000 + d1 * 0x40 + d0"
    using four by (simp add: q_def d2_def d1_def d0_def)
  have r: "0x10000 \<le> c" "c < 0x110000"
    using c b b1 b2 by linarith+
  have "c mod 0x40 = d0" "c div 0x40 mod 0x40 = d1" "c div 0x1000 mod 0x40 = d2"
     "c div 0x40000 = q"
    using digits_eval [OF _ _ _ c] b by simp_all
  then have "utf8_encode_char c = [b0, b1, b2, b3]"
    using r b by (simp add: utf8_encode_char_def)
  then show ?thesis using four r by (simp add: is_scalar_value_def)
qed


lemma utf8_decode_step:
  "utf8_decode_char bs = Some (c, r) \<Longrightarrow> utf8_decode bs = map_option ((#) c) (utf8_decode r)"
  by (cases bs) (simp_all add: utf8_decode_char_def)

lemma utf8_decode_encode:
  "list_all is_scalar_value s \<Longrightarrow> utf8_decode (utf8_encode s) = Some s"
proof (induction s)
  case Nil
  then show ?case by (simp add: utf8_encode_def)
next
  case (Cons c s)
  then have "utf8_decode_char (utf8_encode_char c @ utf8_encode s) = Some (c, utf8_encode s)"
    by (simp add: utf8_decode_encode_char)
  then have "utf8_decode (utf8_encode_char c @ utf8_encode s)
      = map_option ((#) c) (utf8_decode (utf8_encode s))"
    by (rule utf8_decode_step)
  with Cons show ?case by (simp add: utf8_encode_def)
qed

lemma utf8_encode_decode:
  "utf8_decode bs = Some s \<Longrightarrow> list_all is_scalar_value s \<and> utf8_encode s = bs"
proof (induction bs arbitrary: s rule: utf8_decode.induct)
  case 1
  then show ?case by (simp add: utf8_encode_def)
next
  case (2 b bs)
  from "2.prems" obtain c r where d: "utf8_decode_char (b # bs) = Some (c, r)"
    by (auto split: option.splits)
  with "2.prems" obtain s' where s': "utf8_decode r = Some s'" "s = c # s'"
    by auto
  from "2.IH" [OF d refl s'(1)]
  have ih: "list_all is_scalar_value s'" "utf8_encode s' = r" by simp_all
  from utf8_encode_decode_char [OF d]
  have "is_scalar_value c" "b # bs = utf8_encode_char c @ r" by simp_all
  with ih s' show ?case by (simp add: utf8_encode_def)
qed

lemma utf8_decode_iff:
  "utf8_decode bs = Some s \<longleftrightarrow> list_all is_scalar_value s \<and> utf8_encode s = bs"
  using utf8_decode_encode utf8_encode_decode by blast

lemma bytes_decode_utf8_None_iff: "bytes_decode_utf8 bs = None \<longleftrightarrow> \<not> valid_utf8 bs"
  by (simp add: bytes_decode_utf8_def valid_utf8_def utf8_decode_iff [symmetric])

subsection \<open>The aggregation cell\<close>

lemma aggregate_loop_eq:
  "aggregate_loop ts (ab, jl) =
     (ab @ concat (map bytes ts), foldl (+) jl (map logprob ts))"
  by (induction ts arbitrary: ab jl) simp_all



subsection \<open>Decoding the aggregated bytes\<close>

lemma decodeText_eq:
  "decodeText tokens =
     (case bytes_decode_utf8 (concat (map bytes tokens)) of
        None \<Rightarrow> Inl UnicodeDecodeError
      | Some text \<Rightarrow> Inr text)"
  by (simp add: decodeText_def aggregate_loop_eq)

lemma emoji_decode:
  "bytes_decode_utf8 [240, 159, 140, 136, 240, 159, 141, 149, 240, 159, 154, 128]
     = Some [0x1F308, 0x1F355, 0x1F680]"
  by (simp add: bytes_decode_utf8_def utf8_decode_char_def is_continuation_def)

lemma emoji_bytes:
  "concat (map bytes (logprobs_content emoji_response))
     = [240, 159, 140, 136, 240, 159, 141, 149, 240, 159, 154, 128]"
  by (simp add: emoji_response_def fragment_def)

text \<open>
  Claim C2.  The decoded text is the strict UTF-8 decoding of the tokens' bytes,
  concatenated in sequence order into one buffer.  It fails, with
  \<^verbatim>\<open>UnicodeDecodeError\<close>, exactly when the buffer is not well-formed UTF-8; when it
  succeeds, the text is the one sequence of scalar values whose encoding is the buffer.
  So every token sequence whose bytes concatenate to the UTF-8 encoding of the rainbow,
  the pizza and the rocket (U+1F308, U+1F355, U+1F680) decodes to exactly that text, as
  the nine byte fragments of the emoji response do.
\<close>

theorem decodeText_utf8:
  "fst (aggregate_loop tokens ([], 0)) = concat (map bytes tokens)
   \<and> decodeText tokens =
       (case bytes_decode_utf8 (concat (map bytes tokens)) of
          None \<Rightarrow> Inl UnicodeDecodeError
        | Some text \<Rightarrow> Inr text)
   \<and> (decodeText tokens = Inl UnicodeDecodeError
        \<longleftrightarrow> \<not> valid_utf8 (concat (map bytes tokens)))
   \<and> (decodeText tokens = Inr text
        \<longleftrightarrow> list_all is_scalar_value text
            \<and> utf8_encode text = map unat (concat (map bytes tokens)))
   \<and> (map unat (concat (map bytes tokens)) = utf8_encode [0x1F308, 0x1F355, 0x1F680]
        \<longrightarrow> decodeText tokens = Inr [0x1F308, 0x1F355, 0x1F680])
   \<and> decodeText (logprobs_content emoji_response) = Inr [0x1F308, 0x1F355, 0x1F680]"
proof -
  have f1: "fst (aggregate_loop tokens ([], 0)) = concat (map bytes tokens)"
    by (simp add: aggregate_loop_eq)
  have f3: "decodeText tokens = Inl UnicodeDecodeError
      \<longleftrightarrow> \<not> valid_utf8 (concat (map bytes tokens))"
    unfolding bytes_decode_utf8_None_iff [symmetric]
    by (simp add: decodeText_eq split: option.splits)
  have d: "decodeText tokens = Inr s
      \<longleftrightarrow> utf8_decode (map unat (concat (map bytes tokens))) = Some s" for s
    by (simp add: decodeText_eq bytes_decode_utf8_def split: option.splits)
  have f4: "decodeText tokens = Inr text
      \<longleftrightarrow> list_all is_scalar_value text
          \<and> utf8_encode text = map unat (concat (map bytes tokens))"
    unfolding d by (simp only: utf8_decode_iff)
  have "list_all is_scalar_value [0x1F308, 0x1F355, 0x1F680]"
    by (simp add: is_scalar_value_def)
  then have f5: "map unat (concat (map bytes tokens)) = utf8_encode [0x1F308, 0x1F355, 0x1F680]
      \<longrightarrow> decodeText tokens = Inr [0x1F308, 0x1F355, 0x1F680]"
    unfolding d by (simp only: utf8_decode_iff) simp
  have f6: "decodeText (logprobs_content emoji_response)
      = Inr [0x1F308, 0x1F355, 0x1F680]"
    by (simp add: decodeText_eq emoji_bytes emoji_decode)
  from f1 decodeText_eq f3 f4 f5 f6 show ?thesis by (intro conjI)
qed

theorem decodeText_utf8_witness:
  "map unat (concat (map bytes (logprobs_content emoji_response)))
     = utf8_encode [0x1F308, 0x1F355, 0x1F680]
   \<and> decodeText (logprobs_content emoji_response) = Inr [0x1F308, 0x1F355, 0x1F680]
   \<and> decodeText [hd (logprobs_content emoji_response)] = Inl UnicodeDecodeError
   \<and> \<not> valid_utf8 [240, 159]"
proof -
  have a: "map unat (concat (map bytes (logprobs_content emoji_response)))
     = utf8_encode [0x1F308, 0x1F355, 0x1F680]"
    by (simp add: emoji_bytes utf8_encode_def utf8_encode_char_def)
  with decodeText_utf8 [of "logprobs_content emoji_response"]
  have b: "decodeText (logprobs_content emoji_response) = Inr [0x1F308, 0x1F355, 0x1F680]"
    by blast
  have t: "bytes (hd (logprobs_content emoji_response)) = [240, 159]"
    by (simp add: emoji_response_def fragment_def)
  have c: "decodeText [hd (logprobs_content emoji_response)] = Inl UnicodeDecodeError"
    by (simp add: decodeText_eq t bytes_decode_utf8_def utf8_decode_char_def)
  with decodeText_utf8 [of "[hd (logprobs_content emoji_response)]"] t
  have d: "\<not> valid_utf8 [240, 159]" by simp
  from a b c d show ?thesis by (intro conjI)
qed

subsection \<open>The consistency check\<close>

lemma aggregate_cell_eq:
  "aggregate_cell g r =
     (case decodeText (logprobs_content r) of
        Inl e \<Rightarrow> Inl e
      | Inr text \<Rightarrow>
          if message r = text
          then Inr ((text, jointProbability (logprobs_content r)),
                 g\<lparr>aggregated_bytes := Some (concat (map bytes (logprobs_content r))),
                   joint_logprob := Some (foldl (+) 0 (map logprob (logprobs_content r))),
                   message_content := Some (message r),
                   aggregated_text := Some text\<rparr>)
          else Inl AssertionError)"
  by (simp add: aggregate_cell_def decodeText_def jointProbability_def aggregate_loop_eq
      split: option.splits)




subsection \<open>Thresholds\<close>

text \<open>
  Claim C7.  Meeting a threshold is monotone in the linear probability: for a fixed
  threshold, if one log-probability has at least the linear probability of another and
  the other meets the threshold, so does the first.
\<close>

theorem meetsThreshold_monotone:
  "linearProbability logprob2 \<le> linearProbability logprob1 \<Longrightarrow>
   meetsThreshold logprob2 t \<Longrightarrow> meetsThreshold logprob1 t"
  by (simp add: meetsThreshold_def)

theorem meetsThreshold_monotone_witness:
  "linearProbability (- 1) \<le> linearProbability 0 \<and> meetsThreshold (- 1) (1 / 4)
   \<and> meetsThreshold 0 (1 / 4)"
proof -
  have a: "linearProbability (- 1) \<le> linearProbability 0"
    by (simp add: linearProbability_def)
  have e: "exp (1::real) < 4"
    using exp_le by simp
  have b: "meetsThreshold (- 1) (1 / 4)"
    using e by (simp add: meetsThreshold_def linearProbability_def exp_minus field_simps)
  from a b meetsThreshold_monotone [OF a b] show ?thesis by (intro conjI)
qed




subsection \<open>Highlighting decodes token by token\<close>

lemma highlight_loop_fails:
  "\<exists>t \<in> set ts. bytes_decode_utf8 (bytes t) = None \<Longrightarrow>
   highlight_loop ts color_idx out = Inl UnicodeDecodeError"
  by (induction ts arbitrary: color_idx out) (auto split: option.splits)

lemma highlight_loop_succeeds:
  "\<not> (\<exists>t \<in> set ts. bytes_decode_utf8 (bytes t) = None) \<Longrightarrow>
   \<exists>res. highlight_loop ts color_idx out = Inr res"
  by (induction ts arbitrary: color_idx out) (auto split: option.splits)

lemma highlight_text_fails_iff:
  "highlight_text r = Inl UnicodeDecodeError
     \<longleftrightarrow> (\<exists>t \<in> set (logprobs_content r). bytes_decode_utf8 (bytes t) = None)"
proof (cases "\<exists>t \<in> set (logprobs_content r). bytes_decode_utf8 (bytes t) = None")
  case True
  then show ?thesis by (simp add: highlight_text_def highlight_loop_fails)
next
  case False
  from highlight_loop_succeeds [OF this, of 0 "[]"] False show ?thesis
    by (auto simp: highlight_text_def)
qed

text \<open>
  Claim C10.  \<^verbatim>\<open>highlight_text\<close> decodes the bytes of each token on their own.  For
  every response with a token whose bytes are not valid UTF-8 by themselves it fails
  with \<^verbatim>\<open>UnicodeDecodeError\<close>, and it fails so for no other response.  The emoji response is such a response: its first
  token holds the two bytes 240, 159 of a four-byte character, so \<^verbatim>\<open>highlight_text\<close>
  fails on it, although the concatenation of all its bytes decodes to the emoji text.
\<close>

theorem highlight_text_fragment_fails:
  "((\<exists>t \<in> set (logprobs_content r). bytes_decode_utf8 (bytes t) = None)
      \<longrightarrow> highlight_text r = Inl UnicodeDecodeError)
   \<and> (highlight_text r = Inl UnicodeDecodeError
      \<longrightarrow> (\<exists>t \<in> set (logprobs_content r). bytes_decode_utf8 (bytes t) = None))
   \<and> bytes_decode_utf8 (bytes (hd (logprobs_content emoji_response))) = None
   \<and> highlight_text emoji_response = Inl UnicodeDecodeError
   \<and> decodeText (logprobs_content emoji_response) = Inr [0x1F308, 0x1F355, 0x1F680]"
proof -
  have f1: "(\<exists>t \<in> set (logprobs_content r). bytes_decode_utf8 (bytes t) = None)
      \<longrightarrow> highlight_text r = Inl UnicodeDecodeError"
    by (simp add: highlight_text_fails_iff)
  have f1b: "highlight_text r = Inl UnicodeDecodeError
      \<longrightarrow> (\<exists>t \<in> set (logprobs_content r). bytes_decode_utf8 (bytes t) = None)"
    by (simp add: highlight_text_fails_iff)
  have f2: "bytes_decode_utf8 (bytes (hd (logprobs_content emoji_response))) = None"
    by (simp add: emoji_response_def fragment_def bytes_decode_utf8_def utf8_decode_char_def)
  have f3: "highlight_text emoji_response = Inl UnicodeDecodeError"
    by (simp add: highlight_text_def emoji_response_def fragment_def bytes_decode_utf8_def
        utf8_decode_char_def)
  have f4: "decodeText (logprobs_content emoji_response) = Inr [0x1F308, 0x1F355, 0x1F680]"
    by (simp add: decodeText_eq emoji_bytes emoji_decode)
  from f1 f1b f2 f3 f4 show ?thesis by (intro conjI)
qed

theorem highlight_text_fragment_fails_witness:
  "(\<exists>t \<in> set (logprobs_content emoji_response). bytes_decode_utf8 (bytes t) = None)
   \<and> highlight_text emoji_response = Inl UnicodeDecodeError
   \<and> highlight_text (emoji_response\<lparr>logprobs_content := [fragment ''My'' [77, 121] (- 1)]\<rparr>)
       = Inr ([0x1B # str ''[95mMy'' @ 0x1B # str ''[0m''], 1)"
proof -
  have "bytes_decode_utf8 (bytes (hd (logprobs_content emoji_response))) = None"
    using highlight_text_fragment_fails [of emoji_response] by blast
  moreover have "hd (logprobs_content emoji_response) \<in> set (logprobs_content emoji_response)"
    by (simp add: emoji_response_def)
  ultimately have a: "\<exists>t \<in> set (logprobs_content emoji_response).
      bytes_decode_utf8 (bytes t) = None"
    by blast
  with highlight_text_fragment_fails [of emoji_response]
  have b: "highlight_text emoji_response = Inl UnicodeDecodeError" by blast
  have c: "highlight_text (emoji_response\<lparr>logprobs_content := [fragment ''My'' [77, 121] (- 1)]\<rparr>)
       = Inr ([0x1B # str ''[95mMy'' @ 0x1B # str ''[0m''], 1)"
    by (simp add: highlight_text_def fragment_def bytes_decode_utf8_def utf8_decode_char_def
        colors_def reset_color_def str_def)
  from a b c show ?thesis by (intro conjI)
qed

subsection \<open>Rounding and bounds on the exponential\<close>





subsection \<open>The autocomplete loop and the unbound dictionary\<close>





subsection \<open>Reporting the alternatives\<close>










subsection \<open>Globals of the kernel\<close>

lemma extensions_loop_nonempty:
  "ts \<noteq> [] \<Longrightarrow>
   extensions_loop msg ts (ab, jl, mc, txt) = extensions_loop msg ts (ab, jl, mc', txt')"
  by (cases ts) (simp_all split: option.splits)

lemma extensions_cell_nonempty:
  assumes "logprobs_content r \<noteq> []"
  shows "map_sum id fst (extensions_cell g1 r) = map_sum id fst (extensions_cell g2 r)"
proof -
  have "extensions_loop (message r) (logprobs_content r)
          ([], 0, message_content g1, aggregated_text g1)
      = extensions_loop (message r) (logprobs_content r)
          ([], 0, message_content g2, aggregated_text g2)"
    using assms by (rule extensions_loop_nonempty)
  then show ?thesis
    by (auto simp: extensions_cell_def split: sum.splits option.splits prod.splits)
qed

text \<open>
  Claim C8, as the code has it.  What the aggregation cell of section 2 reports is
  determined by the response alone, whatever the kernel held before, since the cell
  resets its accumulators; the same holds for the cell of section 4 on a response with
  at least one token.  But the cells are not stateless: their accumulators and results
  are globals of the kernel, and when a cell completes they stay bound to the bytes, the
  sum of log-probabilities, the message text and the decoded text of the response just
  processed.
\<close>

theorem aggregation_state:
  "map_sum id fst (aggregate_cell g1 r) = map_sum id fst (aggregate_cell g2 r)
   \<and> (logprobs_content r \<noteq> []
      \<longrightarrow> map_sum id fst (extensions_cell g1 r) = map_sum id fst (extensions_cell g2 r))
   \<and> (aggregate_cell g r = Inr (out, g')
      \<longrightarrow> aggregated_bytes g' = Some (concat (map bytes (logprobs_content r)))
        \<and> joint_logprob g' = Some (foldl (+) 0 (map logprob (logprobs_content r)))
        \<and> message_content g' = Some (message r)
        \<and> aggregated_text g' = Some (fst out)
        \<and> high_prob_completions g' = high_prob_completions g)"
proof -
  have f1: "map_sum id fst (aggregate_cell g1 r) = map_sum id fst (aggregate_cell g2 r)"
    by (simp add: aggregate_cell_eq split: sum.splits)
  have f2: "logprobs_content r \<noteq> []
      \<longrightarrow> map_sum id fst (extensions_cell g1 r) = map_sum id fst (extensions_cell g2 r)"
    by (simp add: extensions_cell_nonempty)
  have f3: "aggregate_cell g r = Inr (out, g')
      \<longrightarrow> aggregated_bytes g' = Some (concat (map bytes (logprobs_content r)))
        \<and> joint_logprob g' = Some (foldl (+) 0 (map logprob (logprobs_content r)))
        \<and> message_content g' = Some (message r)
        \<and> aggregated_text g' = Some (fst out)
        \<and> high_prob_completions g' = high_prob_completions g"
    by (auto simp: aggregate_cell_eq split: sum.splits if_splits)
  from f1 f2 f3 show ?thesis by (intro conjI)
qed

theorem aggregation_state_witness:
  "logprobs_content emoji_response \<noteq> []
   \<and> map_sum id fst (extensions_cell fresh_kernel emoji_response)
       = map_sum id fst
           (extensions_cell (fresh_kernel\<lparr>aggregated_text := Some (str ''My'')\<rparr>) emoji_response)
   \<and> aggregate_cell fresh_kernel emoji_response
       = Inr ((message emoji_response, jointProbability (logprobs_content emoji_response)),
           fresh_kernel\<lparr>aggregated_bytes :=
               Some (concat (map bytes (logprobs_content emoji_response))),
             joint_logprob := Some (foldl (+) 0 (map logprob (logprobs_content emoji_response))),
             message_content := Some (message emoji_response),
             aggregated_text := Some (message emoji_response)\<rparr>)
   \<and> aggregated_text
        (fresh_kernel\<lparr>aggregated_bytes :=
               Some (concat (map bytes (logprobs_content emoji_response))),
             joint_logprob := Some (foldl (+) 0 (map logprob (logprobs_content emoji_response))),
             message_content := Some (message emoji_response),
             aggregated_text := Some (message emoji_response)\<rparr>)
       = Some (message emoji_response)"
proof -
  have a: "logprobs_content emoji_response \<noteq> []"
    by (simp add: emoji_response_def)
  note th = aggregation_state [of fresh_kernel emoji_response
      "fresh_kernel\<lparr>aggregated_text := Some (str ''My'')\<rparr>" fresh_kernel
      "(message emoji_response, jointProbability (logprobs_content emoji_response))"
      "fresh_kernel\<lparr>aggregated_bytes :=
               Some (concat (map bytes (logprobs_content emoji_response))),
             joint_logprob := Some (foldl (+) 0 (map logprob (logprobs_content emoji_response))),
             message_content := Some (message emoji_response),
             aggregated_text := Some (message emoji_response)\<rparr>"]
  from th a have b: "map_sum id fst (extensions_cell fresh_kernel emoji_response)
       = map_sum id fst
           (extensions_cell (fresh_kernel\<lparr>aggregated_text := Some (str ''My'')\<rparr>) emoji_response)"
    by blast
  have c: "aggregate_cell fresh_kernel emoji_response
       = Inr ((message emoji_response, jointProbability (logprobs_content emoji_response)),
           fresh_kernel\<lparr>aggregated_bytes :=
               Some (concat (map bytes (logprobs_content emoji_response))),
             joint_logprob := Some (foldl (+) 0 (map logprob (logprobs_content emoji_response))),
             message_content := Some (message emoji_response),
             aggregated_text := Some (message emoji_response)\<rparr>)"
    by (simp add: aggregate_cell_eq decodeText_eq emoji_bytes emoji_decode)
      (simp add: emoji_response_def emoji_text_def)
  from th c have d: "aggregated_text
        (fresh_kernel\<lparr>aggregated_bytes :=
               Some (concat (map bytes (logprobs_content emoji_response))),
             joint_logprob := Some (foldl (+) 0 (map logprob (logprobs_content emoji_response))),
             message_content := Some (message emoji_response),
             aggregated_text := Some (message emoji_response)\<rparr>)
       = Some (message emoji_response)"
    by simp
  from a b c d show ?thesis by (intro conjI)
qed

text \<open>
  The claim as the specification states it fails on the code.  State is retained: after
  the aggregation cell has processed the emoji response in a fresh kernel,
  \<^verbatim>\<open>aggregated_text\<close> is bound to the emoji text.  And the retained state reaches a later
  run: on one and the same response without tokens, the cell of section 4 reports the
  emoji text of the earlier response when run after it, and raises \<^verbatim>\<open>NameError\<close> when
  run in a fresh kernel.
\<close>

theorem stateless_counterexample:
  "aggregate_cell fresh_kernel emoji_response
     = Inr (([0x1F308, 0x1F355, 0x1F680], jointProbability (logprobs_content emoji_response)),
         fresh_kernel\<lparr>aggregated_bytes :=
             Some [240, 159, 140, 136, 240, 159, 141, 149, 240, 159, 154, 128],
           joint_logprob := Some (foldl (+) 0 (map logprob (logprobs_content emoji_response))),
           message_content := Some [0x1F308, 0x1F355, 0x1F680],
           aggregated_text := Some [0x1F308, 0x1F355, 0x1F680]\<rparr>)
   \<and> aggregated_text fresh_kernel = None
   \<and> aggregated_text
        (fresh_kernel\<lparr>aggregated_bytes :=
             Some [240, 159, 140, 136, 240, 159, 141, 149, 240, 159, 154, 128],
           joint_logprob := Some (foldl (+) 0 (map logprob (logprobs_content emoji_response))),
           message_content := Some [0x1F308, 0x1F355, 0x1F680],
           aggregated_text := Some [0x1F308, 0x1F355, 0x1F680]\<rparr>)
       = Some [0x1F308, 0x1F355, 0x1F680]
   \<and> map_sum id fst
        (extensions_cell
          (fresh_kernel\<lparr>aggregated_bytes :=
             Some [240, 159, 140, 136, 240, 159, 141, 149, 240, 159, 154, 128],
           joint_logprob := Some (foldl (+) 0 (map logprob (logprobs_content emoji_response))),
           message_content := Some [0x1F308, 0x1F355, 0x1F680],
           aggregated_text := Some [0x1F308, 0x1F355, 0x1F680]\<rparr>)
          \<lparr>logprobs_content = [], message = []\<rparr>)
       = Inr ([0x1F308, 0x1F355, 0x1F680], 1)
   \<and> map_sum id fst (extensions_cell fresh_kernel \<lparr>logprobs_content = [], message = []\<rparr>)
       = Inl NameError"
proof -
  have m: "message emoji_response = [0x1F308, 0x1F355, 0x1F680]"
    by (simp add: emoji_response_def emoji_text_def)
  have c: "aggregate_cell fresh_kernel emoji_response
     = Inr (([0x1F308, 0x1F355, 0x1F680], jointProbability (logprobs_content emoji_response)),
         fresh_kernel\<lparr>aggregated_bytes :=
             Some [240, 159, 140, 136, 240, 159, 141, 149, 240, 159, 154, 128],
           joint_logprob := Some (foldl (+) 0 (map logprob (logprobs_content emoji_response))),
           message_content := Some [0x1F308, 0x1F355, 0x1F680],
           aggregated_text := Some [0x1F308, 0x1F355, 0x1F680]\<rparr>)"
    by (simp add: aggregate_cell_eq decodeText_eq emoji_bytes emoji_decode m)
  have d: "aggregated_text fresh_kernel = None"
    by (simp add: fresh_kernel_def)
  have e: "map_sum id fst
        (extensions_cell
          (fresh_kernel\<lparr>aggregated_bytes :=
             Some [240, 159, 140, 136, 240, 159, 141, 149, 240, 159, 154, 128],
           joint_logprob := Some (foldl (+) 0 (map logprob (logprobs_content emoji_response))),
           message_content := Some [0x1F308, 0x1F355, 0x1F680],
           aggregated_text := Some [0x1F308, 0x1F355, 0x1F680]\<rparr>)
          \<lparr>logprobs_content = [], message = []\<rparr>)
       = Inr ([0x1F308, 0x1F355, 0x1F680], 1)"
    by (simp add: extensions_cell_def)
  have f: "map_sum id fst (extensions_cell fresh_kernel \<lparr>logprobs_content = [], message = []\<rparr>)
       = Inl NameError"
    by (simp add: extensions_cell_def fresh_kernel_def)
  from c d e f show ?thesis by simp
qed

end
